theory Spec2Isabelle
  imports Complex_Main "HOL-Library.Char_ord" "HOL-Library.List_Lexorder"
begin

section \<open>Data model\<close>

text \<open>
  The tables of the program are pandas frames whose rows are built in
  \<^verbatim>\<open>_raw_to_dataframe\<close> (liquidations) and \<^verbatim>\<open>_parse_events\<close> (user actions).
  A table is modelled as the list of its rows, in row order; \<^verbatim>\<open>df.empty\<close> is
  \<open>df = []\<close>. The columns \<^verbatim>\<open>id\<close>, \<^verbatim>\<open>version\<close>, \<^verbatim>\<open>timestamp\<close>, \<^verbatim>\<open>tx_hash\<close> and
  \<^verbatim>\<open>market_name\<close> occur in both kinds of row and form the common part. The column
  \<^verbatim>\<open>id\<close> is called \<open>row_id\<close> here, and the column \<^verbatim>\<open>datetime\<close>, which is computed
  from \<^verbatim>\<open>timestamp\<close> alone, is left out. Python floats are modelled as exact reals:
  comparisons are exact, sums ignore rounding.
\<close>

record event =
  row_id :: string
  version :: string
  timestamp :: int
  tx_hash :: string
  market_name :: string

record liquidation = event +
  block_number :: int
  liquidator :: string
  liquidatee :: string
  collateral_asset_symbol :: string
  collateral_asset_address :: string
  collateral_amount_raw :: string
  collateral_amount_btc :: real
  collateral_amount_usd :: real
  market_address :: string

record action = event +
  action_type :: string
  account :: string
  asset_symbol :: string
  asset_address :: string
  amount :: real
  amount_usd :: real

section \<open>Aggregation layer (data_processor.py)\<close>

subsection \<open>KPI summary\<close>

record totals =
  total_btc :: real
  total_usd :: real

record kpi = totals +
  total_liquidations :: nat
  unique_liquidators :: nat
  unique_liquidatees :: nat
  avg_liquidation_usd :: real
  max_liquidation_usd :: real
  v2_count :: nat
  v3_count :: nat

text \<open>\<^verbatim>\<open>Series.nunique\<close> is the number of distinct values of a column.\<close>

definition nunique :: "'a list \<Rightarrow> nat" where
  "nunique xs = length (remdups xs)"

text \<open>\<^verbatim>\<open>get_kpi_metrics\<close>: the empty frame is answered by the literal of zeros, any other
  frame by the column statistics.\<close>

definition get_kpi_metrics :: "liquidation list \<Rightarrow> kpi" where
  "get_kpi_metrics df =
     (if df = [] then
        \<lparr>total_btc = 0, total_usd = 0, total_liquidations = 0,
         unique_liquidators = 0, unique_liquidatees = 0,
         avg_liquidation_usd = 0, max_liquidation_usd = 0,
         v2_count = 0, v3_count = 0\<rparr>
      else
        \<lparr>total_btc = sum_list (map collateral_amount_btc df),
         total_usd = sum_list (map collateral_amount_usd df),
         total_liquidations = length df,
         unique_liquidators = nunique (map liquidator df),
         unique_liquidatees = nunique (map liquidatee df),
         avg_liquidation_usd = sum_list (map collateral_amount_usd df) / real (length df),
         max_liquidation_usd = Max (set (map collateral_amount_usd df)),
         v2_count = length (filter (\<lambda>r. version r = ''V2'') df),
         v3_count = length (filter (\<lambda>r. version r = ''V3'') df)\<rparr>)"

subsection \<open>Size brackets\<close>

text \<open>
  \<^verbatim>\<open>pd.cut(values, bins=bins, labels=labels)\<close> with the defaults \<^verbatim>\<open>right=True\<close> and
  \<^verbatim>\<open>include_lowest=False\<close>: consecutive edges \<open>lo\<close>, \<open>hi\<close> delimit the interval
  \<open>lo < v \<le> hi\<close>, the i-th interval carries the i-th label, and a value in no
  interval gets no label (NaN, here \<open>None\<close>). An edge is a float or \<^verbatim>\<open>float("inf")\<close>.
\<close>

datatype edge = Fin real | PosInf

fun edge_less :: "edge \<Rightarrow> real \<Rightarrow> bool" where
  "edge_less (Fin a) v = (a < v)"
| "edge_less PosInf v = False"

fun le_edge :: "real \<Rightarrow> edge \<Rightarrow> bool" where
  "le_edge v (Fin b) = (v \<le> b)"
| "le_edge v PosInf = True"

fun pd_cut :: "real \<Rightarrow> edge list \<Rightarrow> 'l list \<Rightarrow> 'l option" where
  "pd_cut v (lo # hi # bins) (l # labels) =
     (if edge_less lo v \<and> le_edge v hi then Some l else pd_cut v (hi # bins) labels)"
| "pd_cut v bins labels = None"

text \<open>One row of a \<^verbatim>\<open>groupby(...).agg(count=("tx_hash", "count"),
  total_btc=("collateral_amount_btc", "sum"), total_usd=("collateral_amount_usd", "sum"))\<close>:
  the group key and the three aggregates of the rows of the group.\<close>

record 'k agg_row = totals +
  key :: 'k
  count :: nat

definition agg :: "'k \<Rightarrow> liquidation list \<Rightarrow> 'k agg_row" where
  "agg k rows =
     \<lparr>total_btc = sum_list (map collateral_amount_btc rows),
      total_usd = sum_list (map collateral_amount_usd rows),
      key = k,
      count = length rows\<rparr>"

definition size_bins :: "edge list" where
  "size_bins = [Fin 0, Fin 0.1, Fin 0.5, Fin 1, Fin 5, Fin 10, Fin 50, PosInf]"

definition size_labels :: "string list" where
  "size_labels = [''<0.1'', ''0.1-0.5'', ''0.5-1'', ''1-5'', ''5-10'', ''10-50'', ''>50'']"

definition size_bracket :: "liquidation \<Rightarrow> string option" where
  "size_bracket r = pd_cut (collateral_amount_btc r) size_bins size_labels"

text \<open>\<^verbatim>\<open>get_size_distribution\<close>: grouping by the categorical bracket with
  \<^verbatim>\<open>observed=True\<close> yields one row per label that some record carries, in the order of
  the labels; records without a label belong to no group.\<close>

definition get_size_distribution :: "liquidation list \<Rightarrow> string agg_row list" where
  "get_size_distribution df =
     (if df = [] then []
      else map (\<lambda>l. agg l (filter (\<lambda>r. size_bracket r = Some l) df))
             (filter (\<lambda>l. filter (\<lambda>r. size_bracket r = Some l) df \<noteq> []) size_labels))"

subsection \<open>Top-N ranking\<close>


text \<open>
  \<^verbatim>\<open>sort_values(col, ascending=False)\<close> with the default sort kind: the rows in
  descending order of the column. The default kind is not a stable one, and rows with
  equal values do not keep the order in which they entered the sort: they come out in
  the reverse of it, as from an ascending sort read backwards.
\<close>

definition sort_values_desc :: "('a \<Rightarrow> 'k::linorder) \<Rightarrow> 'a list \<Rightarrow> 'a list" where
  "sort_values_desc col df = rev (sort_key col df)"




section \<open>Dataset merge (fetcher.py)\<close>

text \<open>\<^verbatim>\<open>drop_duplicates(subset=[col], keep="last")\<close>: a row stays iff no later row has
  the same value in the column; the rows that stay keep their order.\<close>

fun drop_duplicates_last :: "('a \<Rightarrow> 'k) \<Rightarrow> 'a list \<Rightarrow> 'a list" where
  "drop_duplicates_last col [] = []"
| "drop_duplicates_last col (x # xs) =
     (if col x \<in> set (map col xs) then drop_duplicates_last col xs
      else x # drop_duplicates_last col xs)"

text \<open>
  \<^verbatim>\<open>update_data\<close>, from the table read from disk (\<open>existing\<close>) and the table just
  fetched (\<open>new_df\<close>) to the table that is saved and returned. Loading, fetching and
  saving are the callers' effects and stay outside.
\<close>

definition update_data :: "liquidation list \<Rightarrow> liquidation list \<Rightarrow> liquidation list" where
  "update_data existing new_df =
     (if existing = [] then new_df
      else if new_df = [] then existing
      else sort_values_desc timestamp (drop_duplicates_last row_id (existing @ new_df)))"

section \<open>Asset registry (queries.py)\<close>

record asset_config =
  address :: string
  symbol :: string
  name :: string
  decimals :: nat
  subgraphs :: "string list"

definition WBTC_ADDRESS :: string where
  "WBTC_ADDRESS = ''0x2260fac5e5542a773aa44fbcfedf7c193bc2c599''"

definition CBBTC_ADDRESS :: string where
  "CBBTC_ADDRESS = ''0xcbb7c0000ab88b473b1f5afd9ef808440eed33bf''"

definition ASSETS :: "(string \<times> asset_config) list" where
  "ASSETS =
     [(''wbtc'', \<lparr>address = WBTC_ADDRESS, symbol = ''wBTC'', name = ''Wrapped BTC'',
                 decimals = 8, subgraphs = [''V2'', ''V3'']\<rparr>),
      (''cbbtc'', \<lparr>address = CBBTC_ADDRESS, symbol = ''cbBTC'', name = ''Coinbase Wrapped BTC'',
                  decimals = 8, subgraphs = [''V3'']\<rparr>)]"

datatype error = KeyError string

definition get_asset_config :: "string \<Rightarrow> error + asset_config" where
  "get_asset_config asset_key =
     (case map_of ASSETS asset_key of
        None \<Rightarrow> Inl (KeyError asset_key)
      | Some config \<Rightarrow> Inr config)"

section \<open>Behavior classifier (behavior_analyzer.py)\<close>

text \<open>A classified row is the liquidation row (\<^verbatim>\<open>liq.to_dict()\<close>) with the derived
  columns added.\<close>

record classified =
  liq :: liquidation
  behavior :: string
  deposit_count :: nat
  repay_count :: nat
  deposit_usd :: real
  repay_usd :: real
  deposit_assets :: string
  deposited_collateral :: bool
  hours_before_last_action :: "real option"

text \<open>The boolean mask of the loop body: the rows of the action table of one account
  with a timestamp between \<open>ts_from\<close> and \<open>liq_ts\<close>.\<close>

definition user_actions_window :: "action list \<Rightarrow> string \<Rightarrow> int \<Rightarrow> int \<Rightarrow> action list" where
  "user_actions_window actions_df acct ts_from liq_ts =
     filter (\<lambda>a. account a = acct \<and> ts_from \<le> timestamp a \<and> timestamp a \<le> liq_ts) actions_df"

text \<open>\<^verbatim>\<open>sep.join(parts)\<close>.\<close>

fun join :: "string \<Rightarrow> string list \<Rightarrow> string" where
  "join sep [] = []"
| "join sep [x] = x"
| "join sep (x # y # ys) = x @ sep @ join sep (y # ys)"

text \<open>The body of the loop over the qualifying liquidations.\<close>

definition classify_row :: "action list \<Rightarrow> string \<Rightarrow> int \<Rightarrow> liquidation \<Rightarrow> classified" where
  "classify_row actions_df target_address window_seconds l =
     (let acct = liquidatee l;
          liq_ts = timestamp l;
          ts_from = liq_ts - window_seconds;
          user_actions = user_actions_window actions_df acct ts_from liq_ts;
          deposits = filter (\<lambda>a. action_type a = ''deposit'') user_actions;
          repays = filter (\<lambda>a. action_type a = ''repay'') user_actions;
          has_deposit = (0 < length deposits);
          has_repay = (0 < length repays)
      in \<lparr>liq = l,
          behavior =
            (if has_deposit \<and> has_repay then ''Deposit + Repay''
             else if has_deposit then ''Deposit Only''
             else if has_repay then ''Repay Only''
             else ''Passive''),
          deposit_count = length deposits,
          repay_count = length repays,
          deposit_usd = (if 0 < length deposits then sum_list (map amount_usd deposits) else 0),
          repay_usd = (if 0 < length repays then sum_list (map amount_usd repays) else 0),
          deposit_assets =
            (if has_deposit then join '', '' (sort (remdups (map asset_symbol deposits)))
             else []),
          deposited_collateral =
            (if has_deposit then target_address \<in> set (map asset_address deposits) else False),
          hours_before_last_action =
            (if 0 < length user_actions
             then Some (real_of_int (liq_ts - Max (set (map timestamp user_actions))) / 3600)
             else None)\<rparr>)"

text \<open>The row written by the branch for an empty action table.\<close>

definition passive_row :: "liquidation \<Rightarrow> classified" where
  "passive_row l =
     \<lparr>liq = l, behavior = ''Passive'', deposit_count = 0, repay_count = 0,
      deposit_usd = 0, repay_usd = 0, deposit_assets = [],
      deposited_collateral = False, hours_before_last_action = None\<rparr>"

text \<open>\<^verbatim>\<open>classify_users\<close>. The lookup of the asset comes first and raises for an
  unknown key.\<close>

definition classify_users ::
  "liquidation list \<Rightarrow> action list \<Rightarrow> string \<Rightarrow> real \<Rightarrow> int \<Rightarrow> error + classified list" where
  "classify_users liq_df actions_df asset_key min_wbtc window_hours =
     (case get_asset_config asset_key of
        Inl e \<Rightarrow> Inl e
      | Inr config \<Rightarrow>
          (let target_address = address config;
               big = filter (\<lambda>l. min_wbtc \<le> collateral_amount_btc l) liq_df
           in if actions_df = [] then Inr (map passive_row big)
              else Inr (map (classify_row actions_df target_address (window_hours * 3600)) big)))"

subsection \<open>Behavior by size\<close>

definition behavior_bins :: "edge list" where
  "behavior_bins = [Fin 1, Fin 5, Fin 10, Fin 50, PosInf]"

definition behavior_labels :: "string list" where
  "behavior_labels = [''1-5 BTC'', ''5-10 BTC'', ''10-50 BTC'', ''>50 BTC'']"

definition behavior_size_bracket :: "classified \<Rightarrow> string option" where
  "behavior_size_bracket c = pd_cut (collateral_amount_btc (liq c)) behavior_bins behavior_labels"

text \<open>
  \<^verbatim>\<open>get_behavior_by_size\<close>: \<^verbatim>\<open>groupby(["size_bracket", "behavior"], observed=True).size()\<close>
  gives one row (bracket, behavior, count) per pair that some row carries, ordered by
  bracket and then by behavior; rows without a bracket belong to no group.
\<close>

definition get_behavior_by_size :: "classified list \<Rightarrow> (string \<times> string \<times> nat) list" where
  "get_behavior_by_size classified_df =
     (if classified_df = [] then []
      else filter (\<lambda>(l, b, n). 0 < n)
             (concat (map (\<lambda>l. map (\<lambda>b. (l, b,
                  length (filter (\<lambda>c. behavior_size_bracket c = Some l \<and> behavior c = b)
                            classified_df)))
                (sort (remdups (map behavior classified_df)))) behavior_labels)))"

section \<open>Paginated fetch (fetcher.py, user_behavior_fetcher.py)\<close>

text \<open>
  A raw record is the JSON object of the upstream answer, a dictionary. The upstream
  endpoint is outside the program: it is a function from the number of requests sent
  before and the requested offset to the outcome of the request, which is a transport
  failure (\<^verbatim>\<open>requests.RequestException\<close>), an answer with an \<^verbatim>\<open>errors\<close> list, or an
  answer with a page of records. The offsets of all requests sent are recorded, in
  order, next to the accumulated records.
\<close>

datatype json = JString string | JObject "(string \<times> json) list"

type_synonym raw = "string \<rightharpoonup> json"

datatype response = RequestException | GraphQL_errors | Data "raw list"

definition BATCH_SIZE :: nat where
  "BATCH_SIZE = 1000"

definition MAX_RETRIES :: nat where
  "MAX_RETRIES = 3"

text \<open>
  The retry loop \<^verbatim>\<open>for attempt in range(1, MAX_RETRIES + 1)\<close> over the attempts still
  to make: \<open>Some page\<close> when an attempt delivers data (\<^verbatim>\<open>break\<close>), \<open>None\<close> when the
  fetch is abandoned (the two \<^verbatim>\<open>return\<close> statements). The last attempt always leaves
  the loop by one of the three, so the case of no attempt left is never reached from
  the full range.
\<close>

fun attempt_page ::
  "(nat \<Rightarrow> nat \<Rightarrow> response) \<Rightarrow> nat \<Rightarrow> nat list \<Rightarrow> nat list \<Rightarrow> raw list option \<times> nat list" where
  "attempt_page upstream skip reqs [] = (None, reqs)"
| "attempt_page upstream skip reqs (attempt # rest) =
     (case upstream (length reqs) skip of
        Data page \<Rightarrow> (Some page, reqs @ [skip])
      | GraphQL_errors \<Rightarrow> (None, reqs @ [skip])
      | RequestException \<Rightarrow>
          if attempt = MAX_RETRIES then (None, reqs @ [skip])
          else attempt_page upstream skip (reqs @ [skip]) rest)"

text \<open>
  The loop \<^verbatim>\<open>while True\<close> shared by both fetch functions; they differ in what they do
  to the records of a page before appending them (\<open>tag\<close>). The loop need not end: an
  upstream that answers every request with a full page keeps it running, so the result
  is optional and \<open>None\<close> stands for a run that never returns.
\<close>

partial_function (option) fetch_pages ::
  "(nat \<Rightarrow> nat \<Rightarrow> response) \<Rightarrow> (raw \<Rightarrow> raw) \<Rightarrow> nat \<Rightarrow> nat list \<Rightarrow> raw list
    \<Rightarrow> (raw list \<times> nat list) option" where
  "fetch_pages upstream tag skip reqs all_rows =
     (case attempt_page upstream skip reqs [1..<MAX_RETRIES + 1] of
        (None, reqs') \<Rightarrow> Some (all_rows, reqs')
      | (Some page, reqs') \<Rightarrow>
          if page = [] then Some (all_rows, reqs')
          else if length page < BATCH_SIZE then Some (all_rows @ map tag page, reqs')
          else fetch_pages upstream tag (skip + BATCH_SIZE) reqs' (all_rows @ map tag page))"

text \<open>\<^verbatim>\<open>_fetch_liquidations_from_endpoint\<close> stamps every record of a page with the
  protocol version; \<^verbatim>\<open>_fetch_user_events\<close> appends the records as they are.\<close>

definition fetch_liquidations_from_endpoint ::
  "(nat \<Rightarrow> nat \<Rightarrow> response) \<Rightarrow> string \<Rightarrow> (raw list \<times> nat list) option" where
  "fetch_liquidations_from_endpoint upstream version_tag =
     fetch_pages upstream (\<lambda>liq. liq(''version'' \<mapsto> JString version_tag)) 0 [] []"

definition fetch_user_events :: "(nat \<Rightarrow> nat \<Rightarrow> response) \<Rightarrow> (raw list \<times> nat list) option" where
  "fetch_user_events upstream = fetch_pages upstream (\<lambda>ev. ev) 0 [] []"

section \<open>Sample rows\<close>

text \<open>Rows for the concrete scenarios: a liquidation and an action with the fields
  that matter as arguments and the others fixed.\<close>

definition sample_liq :: "string \<Rightarrow> string \<Rightarrow> string \<Rightarrow> int \<Rightarrow> real \<Rightarrow> real \<Rightarrow> liquidation" where
  "sample_liq i lr le ts btc usd =
     \<lparr>row_id = i, version = ''V3'', timestamp = ts, tx_hash = ''0xhash'',
      market_name = ''Aave'', block_number = 1, liquidator = lr, liquidatee = le,
      collateral_asset_symbol = ''WBTC'', collateral_asset_address = WBTC_ADDRESS,
      collateral_amount_raw = ''0'', collateral_amount_btc = btc,
      collateral_amount_usd = usd, market_address = ''0xmarket''\<rparr>"

definition sample_action :: "string \<Rightarrow> string \<Rightarrow> string \<Rightarrow> int \<Rightarrow> real \<Rightarrow> action" where
  "sample_action i ty acct ts usd =
     \<lparr>row_id = i, version = ''V3'', timestamp = ts, tx_hash = ''0xhash'',
      market_name = ''Aave'', action_type = ty, account = acct,
      asset_symbol = ''WBTC'', asset_address = WBTC_ADDRESS, amount = 1,
      amount_usd = usd\<rparr>"

section \<open>KPI summary on the empty table\<close>

text \<open>
  C7. On the empty liquidation table the KPI summary is the all-zero record: total
  count, BTC and USD sums, unique liquidator and liquidatee counts, mean and maximum
  USD value and both per-version counts are 0. The function is total, so it returns.
\<close>

theorem kpi_empty_zero:
  "get_kpi_metrics [] =
     \<lparr>total_btc = 0, total_usd = 0, total_liquidations = 0,
      unique_liquidators = 0, unique_liquidatees = 0,
      avg_liquidation_usd = 0, max_liquidation_usd = 0,
      v2_count = 0, v3_count = 0\<rparr>"
  by (simp add: get_kpi_metrics_def)

section \<open>Size brackets of the distribution\<close>

lemma cut_size_bins:
  "pd_cut v size_bins size_labels =
     (if v \<le> 0 then None
      else if v \<le> 1 / 10 then Some ''<0.1''
      else if v \<le> 1 / 2 then Some ''0.1-0.5''
      else if v \<le> 1 then Some ''0.5-1''
      else if v \<le> 5 then Some ''1-5''
      else if v \<le> 10 then Some ''5-10''
      else if v \<le> 50 then Some ''10-50''
      else Some ''>50'')"
  by (simp add: size_bins_def size_labels_def)

lemma size_distribution_keys:
  "map key (get_size_distribution df) =
     filter (\<lambda>l. \<exists>r\<in>set df. size_bracket r = Some l) size_labels"
  by (simp add: get_size_distribution_def agg_def o_def filter_empty_conv)

lemma size_distribution_rows:
  "g \<in> set (get_size_distribution df) \<Longrightarrow>
     count g = length (filter (\<lambda>r. size_bracket r = Some (key g)) df) \<and>
     total_btc g =
       sum_list (map collateral_amount_btc (filter (\<lambda>r. size_bracket r = Some (key g)) df)) \<and>
     total_usd g =
       sum_list (map collateral_amount_usd (filter (\<lambda>r. size_bracket r = Some (key g)) df))"
  by (auto simp: get_size_distribution_def agg_def split: if_splits)

text \<open>
  C1, as the code has it. The brackets are open at the lower edge and closed at the
  upper one: a record with \<open>collateral_amount_btc = v\<close> gets the label of the interval
  among \<open>(0,0.1]\<close>, \<open>(0.1,0.5]\<close>, \<open>(0.5,1]\<close>, \<open>(1,5]\<close>, \<open>(5,10]\<close>, \<open>(10,50]\<close>, \<open>(50,\<infinity>)\<close>
  that contains \<open>v\<close>, and no label when \<open>v \<le> 0\<close>. The distribution has one row per
  label that some record carries, in the order of the labels, and the row counts and
  sums exactly the records with that label.
\<close>

theorem size_distribution_right_closed:
  "size_bracket r =
     (if collateral_amount_btc r \<le> 0 then None
      else if collateral_amount_btc r \<le> 1 / 10 then Some ''<0.1''
      else if collateral_amount_btc r \<le> 1 / 2 then Some ''0.1-0.5''
      else if collateral_amount_btc r \<le> 1 then Some ''0.5-1''
      else if collateral_amount_btc r \<le> 5 then Some ''1-5''
      else if collateral_amount_btc r \<le> 10 then Some ''5-10''
      else if collateral_amount_btc r \<le> 50 then Some ''10-50''
      else Some ''>50'') \<and>
   map key (get_size_distribution df) =
     filter (\<lambda>l. \<exists>r\<in>set df. size_bracket r = Some l) size_labels \<and>
   (\<forall>g\<in>set (get_size_distribution df).
      count g = length (filter (\<lambda>r. size_bracket r = Some (key g)) df) \<and>
      total_btc g =
        sum_list (map collateral_amount_btc (filter (\<lambda>r. size_bracket r = Some (key g)) df)) \<and>
      total_usd g =
        sum_list (map collateral_amount_usd (filter (\<lambda>r. size_bracket r = Some (key g)) df)))"
  using size_distribution_keys [of df] size_distribution_rows [of _ df]
  by (simp only: size_bracket_def cut_size_bins) blast

theorem size_distribution_right_closed_witness:
  "size_bracket (sample_liq ''a'' ''0xA'' ''0xU'' 1 (1 / 10) 4000) = Some ''<0.1'' \<and>
   map key (get_size_distribution
      [sample_liq ''a'' ''0xA'' ''0xU'' 1 (1 / 10) 4000,
       sample_liq ''b'' ''0xA'' ''0xU'' 2 50 2000000]) =
     [''<0.1'', ''10-50'']"
proof -
  let ?a = "sample_liq ''a'' ''0xA'' ''0xU'' 1 (1 / 10) 4000"
  let ?b = "sample_liq ''b'' ''0xA'' ''0xU'' 2 50 2000000"
  have a: "size_bracket ?a = Some ''<0.1''"
    by (simp add: size_bracket_def cut_size_bins sample_liq_def)
  have b: "size_bracket ?b = Some ''10-50''"
    by (simp add: size_bracket_def cut_size_bins sample_liq_def)
  from size_distribution_right_closed [of ?a "[?a, ?b]"]
  have "map key (get_size_distribution [?a, ?b]) =
          filter (\<lambda>l. \<exists>r\<in>set [?a, ?b]. size_bracket r = Some l) size_labels"
    by blast
  then show ?thesis
    by (simp add: a b size_labels_def)
qed

text \<open>
  C1 as stated fails at both boundaries it names: a record of exactly 0.1 is counted
  under \<open><0.1\<close> and not under \<open>0.1-0.5\<close>, a record of exactly 50 under \<open>10-50\<close> and not
  under \<open>>50\<close>.
\<close>

theorem size_bracket_boundary_counterexample:
  "size_bracket (sample_liq ''a'' ''0xA'' ''0xU'' 1 (1 / 10) 4000) = Some ''<0.1'' \<and>
   size_bracket (sample_liq ''a'' ''0xA'' ''0xU'' 1 (1 / 10) 4000) \<noteq> Some ''0.1-0.5'' \<and>
   size_bracket (sample_liq ''b'' ''0xA'' ''0xU'' 2 50 2000000) = Some ''10-50'' \<and>
   size_bracket (sample_liq ''b'' ''0xA'' ''0xU'' 2 50 2000000) \<noteq> Some ''>50'' \<and>
   map key (get_size_distribution [sample_liq ''a'' ''0xA'' ''0xU'' 1 (1 / 10) 4000]) =
     [''<0.1''] \<and>
   map key (get_size_distribution [sample_liq ''b'' ''0xA'' ''0xU'' 2 50 2000000]) =
     [''10-50'']"
proof -
  have a: "size_bracket (sample_liq ''a'' ''0xA'' ''0xU'' 1 (1 / 10) 4000) = Some ''<0.1''"
    by (simp add: size_bracket_def cut_size_bins sample_liq_def)
  have b: "size_bracket (sample_liq ''b'' ''0xA'' ''0xU'' 2 50 2000000) = Some ''10-50''"
    by (simp add: size_bracket_def cut_size_bins sample_liq_def)
  show ?thesis
    by (simp add: a b get_size_distribution_def agg_def size_labels_def)
qed

section \<open>Behavior classifier\<close>

lemma get_asset_config_known:
  "asset_key = ''wbtc'' \<or> asset_key = ''cbbtc'' \<Longrightarrow>
     \<exists>config. get_asset_config asset_key = Inr config"
  by (auto simp: get_asset_config_def ASSETS_def)

lemma classify_users_rows:
  assumes "classify_users liq_df actions_df asset_key min_wbtc window_hours = Inr out"
  shows "map liq out = filter (\<lambda>l. min_wbtc \<le> collateral_amount_btc l) liq_df"
  using assms
  by (auto simp: classify_users_def Let_def passive_row_def classify_row_def o_def
      split: sum.splits if_splits)

lemma classify_row_behavior:
  "behavior (classify_row actions_df target w l) =
     (if (\<exists>a\<in>set actions_df. account a = liquidatee l \<and>
            timestamp a \<in> {timestamp l - w .. timestamp l} \<and> action_type a = ''deposit'')
      then (if (\<exists>a\<in>set actions_df. account a = liquidatee l \<and>
                  timestamp a \<in> {timestamp l - w .. timestamp l} \<and> action_type a = ''repay'')
            then ''Deposit + Repay'' else ''Deposit Only'')
      else (if (\<exists>a\<in>set actions_df. account a = liquidatee l \<and>
                  timestamp a \<in> {timestamp l - w .. timestamp l} \<and> action_type a = ''repay'')
            then ''Repay Only'' else ''Passive''))"
  by (auto simp: classify_row_def Let_def user_actions_window_def filter_empty_conv)

lemma classify_row_liq: "liq (classify_row actions_df target w l) = l"
  by (simp add: classify_row_def Let_def)

lemma classify_users_member:
  assumes "classify_users liq_df actions_df asset_key min_wbtc window_hours = Inr out"
    and "c \<in> set out"
  shows "\<exists>target. behavior c =
           behavior (classify_row actions_df target (window_hours * 3600) (liq c))"
proof (cases "actions_df = []")
  case True
  with assms
  have "c \<in> passive_row ` set (filter (\<lambda>l. min_wbtc \<le> collateral_amount_btc l) liq_df)"
    by (auto simp: classify_users_def Let_def split: sum.splits)
  then have "behavior c = ''Passive''"
    by (auto simp: passive_row_def)
  with True show ?thesis
    by (simp add: classify_row_behavior)
next
  case False
  with assms obtain t l where "c = classify_row actions_df t (window_hours * 3600) l"
    by (auto simp: classify_users_def Let_def split: sum.splits)
  then have "behavior c = behavior (classify_row actions_df t (window_hours * 3600) (liq c))"
    by (simp add: classify_row_behavior classify_row_liq)
  then show ?thesis ..
qed

lemma classify_users_returns:
  assumes "asset_key = ''wbtc'' \<or> asset_key = ''cbbtc''"
  shows "\<exists>out. classify_users liq_df actions_df asset_key min_wbtc window_hours = Inr out"
proof -
  from assms obtain config where "get_asset_config asset_key = Inr config"
    using get_asset_config_known by blast
  then show ?thesis
    by (simp add: classify_users_def Let_def)
qed

text \<open>The derived columns of a classified row, in terms of the action rows of the
  liquidatee in the closed window.\<close>

lemma classify_row_fields:
  "(let t = timestamp l;
        sel = filter (\<lambda>a. account a = liquidatee l \<and> timestamp a \<in> {t - w .. t}) actions_df
    in deposit_count (classify_row actions_df target w l) =
         length (filter (\<lambda>a. action_type a = ''deposit'') sel) \<and>
       repay_count (classify_row actions_df target w l) =
         length (filter (\<lambda>a. action_type a = ''repay'') sel) \<and>
       deposit_usd (classify_row actions_df target w l) =
         sum_list (map amount_usd (filter (\<lambda>a. action_type a = ''deposit'') sel)) \<and>
       repay_usd (classify_row actions_df target w l) =
         sum_list (map amount_usd (filter (\<lambda>a. action_type a = ''repay'') sel)) \<and>
       hours_before_last_action (classify_row actions_df target w l) =
         (if sel = [] then None
          else Some (real_of_int (t - Max (set (map timestamp sel))) / 3600)))"
  by (simp add: classify_row_def Let_def user_actions_window_def)

lemma passive_row_fields:
  "liq (passive_row l) = l \<and> deposit_count (passive_row l) = 0 \<and>
   repay_count (passive_row l) = 0 \<and> deposit_usd (passive_row l) = 0 \<and>
   repay_usd (passive_row l) = 0 \<and> hours_before_last_action (passive_row l) = None"
  by (simp add: passive_row_def)

lemma classify_users_row_cases:
  assumes "classify_users liq_df actions_df asset_key min_wbtc window_hours = Inr out"
    and "c \<in> set out"
  shows "(actions_df = [] \<and> c = passive_row (liq c)) \<or>
         (\<exists>target. c = classify_row actions_df target (window_hours * 3600) (liq c))"
proof (cases "actions_df = []")
  case True
  with assms obtain l where "c = passive_row l"
    by (auto simp: classify_users_def Let_def split: sum.splits)
  then have "c = passive_row (liq c)"
    by (simp add: passive_row_fields)
  with True show ?thesis by blast
next
  case False
  with assms obtain t l where "c = classify_row actions_df t (window_hours * 3600) l"
    by (auto simp: classify_users_def Let_def split: sum.splits)
  then have "c = classify_row actions_df t (window_hours * 3600) (liq c)"
    by (simp add: classify_row_liq)
  then show ?thesis by blast
qed

lemma classify_users_row_fields:
  assumes "classify_users liq_df actions_df asset_key min_wbtc window_hours = Inr out"
    and "c \<in> set out"
  shows "(let t = timestamp (liq c); w = window_hours * 3600;
            sel = filter (\<lambda>a. account a = liquidatee (liq c) \<and>
                               timestamp a \<in> {t - w .. t}) actions_df
        in deposit_count c = length (filter (\<lambda>a. action_type a = ''deposit'') sel) \<and>
           repay_count c = length (filter (\<lambda>a. action_type a = ''repay'') sel) \<and>
           deposit_usd c =
             sum_list (map amount_usd (filter (\<lambda>a. action_type a = ''deposit'') sel)) \<and>
           repay_usd c =
             sum_list (map amount_usd (filter (\<lambda>a. action_type a = ''repay'') sel)) \<and>
           hours_before_last_action c =
             (if sel = [] then None
              else Some (real_of_int (t - Max (set (map timestamp sel))) / 3600)) \<and>
           (\<forall>a\<in>set actions_df. account a = liquidatee (liq c) \<and> 0 \<le> window_hours \<longrightarrow>
              (timestamp a = t - w \<longrightarrow> a \<in> set sel) \<and>
              (timestamp a = t - w - 1 \<longrightarrow> a \<notin> set sel) \<and>
              (timestamp a = t \<longrightarrow> a \<in> set sel)))"
proof -
  from classify_users_row_cases [OF assms]
  consider "actions_df = []" "c = passive_row (liq c)"
    | target where "c = classify_row actions_df target (window_hours * 3600) (liq c)"
    by blast
  then show ?thesis
  proof cases
    case 1
    from 1(2) passive_row_fields [of "liq c"]
    have "deposit_count c = 0 \<and> repay_count c = 0 \<and> deposit_usd c = 0 \<and> repay_usd c = 0 \<and>
          hours_before_last_action c = None"
      by simp
    with 1(1) show ?thesis
      by (simp add: Let_def)
  next
    case 2
    from classify_row_fields [of "liq c" "window_hours * 3600" actions_df target]
    have "(let t = timestamp (liq c);
        sel = filter (\<lambda>a. account a = liquidatee (liq c) \<and>
                 timestamp a \<in> {t - window_hours * 3600 .. t}) actions_df
      in deposit_count c = length (filter (\<lambda>a. action_type a = ''deposit'') sel) \<and>
         repay_count c = length (filter (\<lambda>a. action_type a = ''repay'') sel) \<and>
         deposit_usd c =
           sum_list (map amount_usd (filter (\<lambda>a. action_type a = ''deposit'') sel)) \<and>
         repay_usd c =
           sum_list (map amount_usd (filter (\<lambda>a. action_type a = ''repay'') sel)) \<and>
         hours_before_last_action c =
           (if sel = [] then None
            else Some (real_of_int (t - Max (set (map timestamp sel))) / 3600)))"
      by (simp only: 2 [symmetric])
    then show ?thesis
      by (simp add: Let_def)
  qed
qed

text \<open>
  C2. For an asset key of the registry the classifier returns one row per qualifying
  liquidation, and for each such row, with event time \<open>t\<close> and a lookback of \<open>w\<close>
  seconds (the window hours times 3600), the action rows it has selected are exactly
  those whose account is the liquidatee and whose timestamp lies in the closed
  interval from \<open>t - w\<close> to \<open>t\<close>: the deposit and repay counts and sums of the row are
  those of the deposits and repays among these rows, and the hours before the last
  action are absent iff there is none of them and else measured from the latest of
  them. For a window that is not negative, a row of the liquidatee at \<open>t - w\<close> is among
  them, one a second earlier is not, and one at \<open>t\<close> is.
\<close>

theorem window_closed_interval:
  assumes "asset_key = ''wbtc'' \<or> asset_key = ''cbbtc''"
  shows "\<exists>out. classify_users liq_df actions_df asset_key min_wbtc window_hours = Inr out \<and>
     map liq out = filter (\<lambda>l. min_wbtc \<le> collateral_amount_btc l) liq_df \<and>
     (\<forall>c\<in>set out.
        let t = timestamp (liq c); w = window_hours * 3600;
            sel = filter (\<lambda>a. account a = liquidatee (liq c) \<and>
                               timestamp a \<in> {t - w .. t}) actions_df
        in deposit_count c = length (filter (\<lambda>a. action_type a = ''deposit'') sel) \<and>
           repay_count c = length (filter (\<lambda>a. action_type a = ''repay'') sel) \<and>
           deposit_usd c =
             sum_list (map amount_usd (filter (\<lambda>a. action_type a = ''deposit'') sel)) \<and>
           repay_usd c =
             sum_list (map amount_usd (filter (\<lambda>a. action_type a = ''repay'') sel)) \<and>
           hours_before_last_action c =
             (if sel = [] then None
              else Some (real_of_int (t - Max (set (map timestamp sel))) / 3600)) \<and>
           (\<forall>a\<in>set actions_df. account a = liquidatee (liq c) \<and> 0 \<le> window_hours \<longrightarrow>
              (timestamp a = t - w \<longrightarrow> a \<in> set sel) \<and>
              (timestamp a = t - w - 1 \<longrightarrow> a \<notin> set sel) \<and>
              (timestamp a = t \<longrightarrow> a \<in> set sel)))"
proof -
  from assms obtain out where
    e: "classify_users liq_df actions_df asset_key min_wbtc window_hours = Inr out"
    using classify_users_returns by blast
  show ?thesis
    by (rule exI [of _ out], intro conjI ballI, rule e, rule classify_users_rows [OF e],
        rule classify_users_row_fields [OF e])
qed

theorem window_closed_interval_witness:
  "\<exists>out. classify_users [sample_liq ''L1'' ''0xL'' ''0xAA'' 1000000 2 80000]
       [sample_action ''A0'' ''deposit'' ''0xAA'' 827199 10,
        sample_action ''A1'' ''deposit'' ''0xAA'' 827200 20,
        sample_action ''A2'' ''repay'' ''0xAA'' 1000000 30,
        sample_action ''A3'' ''repay'' ''0xAA'' 1000001 40,
        sample_action ''A4'' ''repay'' ''0xBB'' 900000 50] ''wbtc'' 1 48 = Inr out \<and>
     map deposit_count out = [1] \<and> map repay_count out = [1] \<and>
     map deposit_usd out = [20] \<and> map repay_usd out = [30] \<and>
     map hours_before_last_action out = [Some 0]"
proof -
  let ?liqs = "[sample_liq ''L1'' ''0xL'' ''0xAA'' 1000000 2 80000]"
  let ?acts = "[sample_action ''A0'' ''deposit'' ''0xAA'' 827199 10,
        sample_action ''A1'' ''deposit'' ''0xAA'' 827200 20,
        sample_action ''A2'' ''repay'' ''0xAA'' 1000000 30,
        sample_action ''A3'' ''repay'' ''0xAA'' 1000001 40,
        sample_action ''A4'' ''repay'' ''0xBB'' 900000 50]"
  from window_closed_interval [of "''wbtc''" ?liqs ?acts 1 48]
  obtain out where e: "classify_users ?liqs ?acts ''wbtc'' 1 48 = Inr out"
    and m: "map liq out = filter (\<lambda>l. 1 \<le> collateral_amount_btc l) ?liqs"
    and f: "\<forall>c\<in>set out.
        let t = timestamp (liq c); w = 48 * 3600;
            sel = filter (\<lambda>a. account a = liquidatee (liq c) \<and>
                               timestamp a \<in> {t - w .. t}) ?acts
        in deposit_count c = length (filter (\<lambda>a. action_type a = ''deposit'') sel) \<and>
           repay_count c = length (filter (\<lambda>a. action_type a = ''repay'') sel) \<and>
           deposit_usd c =
             sum_list (map amount_usd (filter (\<lambda>a. action_type a = ''deposit'') sel)) \<and>
           repay_usd c =
             sum_list (map amount_usd (filter (\<lambda>a. action_type a = ''repay'') sel)) \<and>
           hours_before_last_action c =
             (if sel = [] then None
              else Some (real_of_int (t - Max (set (map timestamp sel))) / 3600)) \<and>
           (\<forall>a\<in>set ?acts. account a = liquidatee (liq c) \<and> (0::int) \<le> 48 \<longrightarrow>
              (timestamp a = t - w \<longrightarrow> a \<in> set sel) \<and>
              (timestamp a = t - w - 1 \<longrightarrow> a \<notin> set sel) \<and>
              (timestamp a = t \<longrightarrow> a \<in> set sel))"
    by blast
  from m obtain c where o: "out = [c]" and lc: "liq c = sample_liq ''L1'' ''0xL'' ''0xAA'' 1000000 2 80000"
    by (auto simp: sample_liq_def map_eq_Cons_conv)
  from f o have "deposit_count c = 1 \<and> repay_count c = 1 \<and> deposit_usd c = 20 \<and>
      repay_usd c = 30 \<and> hours_before_last_action c = Some 0"
    by (simp add: lc Let_def sample_liq_def sample_action_def)
  with o have r: "map deposit_count out = [1] \<and> map repay_count out = [1] \<and>
     map deposit_usd out = [20] \<and> map repay_usd out = [30] \<and>
     map hours_before_last_action out = [Some 0]"
    by simp
  show ?thesis
    by (rule exI [of _ out], rule conjI, rule e, rule r)
qed

lemma classify_users_behavior:
  assumes "classify_users liq_df actions_df asset_key min_wbtc window_hours = Inr out"
    and "c \<in> set out"
  shows "behavior c =
         (if (\<exists>a\<in>set actions_df. account a = liquidatee (liq c) \<and>
                timestamp a \<in> {timestamp (liq c) - window_hours * 3600 .. timestamp (liq c)} \<and>
                action_type a = ''deposit'')
          then (if (\<exists>a\<in>set actions_df. account a = liquidatee (liq c) \<and>
                      timestamp a \<in> {timestamp (liq c) - window_hours * 3600 .. timestamp (liq c)} \<and>
                      action_type a = ''repay'')
                then ''Deposit + Repay'' else ''Deposit Only'')
          else (if (\<exists>a\<in>set actions_df. account a = liquidatee (liq c) \<and>
                      timestamp a \<in> {timestamp (liq c) - window_hours * 3600 .. timestamp (liq c)} \<and>
                      action_type a = ''repay'')
                then ''Repay Only'' else ''Passive''))"
proof -
  from assms obtain target where
    "behavior c = behavior (classify_row actions_df target (window_hours * 3600) (liq c))"
    using classify_users_member by blast
  then show ?thesis
    by (simp only: classify_row_behavior)
qed

text \<open>
  C3. For an asset key of the registry the classifier returns a table with one row
  per qualifying liquidation, in order, and the behavior of each row is the one of the
  four categories that matches the window of that liquidation: both a deposit and a
  repay of the liquidatee in the window give \<open>Deposit + Repay\<close>, a deposit alone
  \<open>Deposit Only\<close>, a repay alone \<open>Repay Only\<close>, neither \<open>Passive\<close>. The four names are
  pairwise different, so exactly one applies.
\<close>

theorem classification_exhaustive_exclusive:
  assumes "asset_key = ''wbtc'' \<or> asset_key = ''cbbtc''"
  shows "\<exists>out. classify_users liq_df actions_df asset_key min_wbtc window_hours = Inr out \<and>
    map liq out = filter (\<lambda>l. min_wbtc \<le> collateral_amount_btc l) liq_df \<and>
    distinct [''Passive'', ''Deposit Only'', ''Repay Only'', ''Deposit + Repay''] \<and>
    (\<forall>c\<in>set out.
       behavior c =
         (if (\<exists>a\<in>set actions_df. account a = liquidatee (liq c) \<and>
                timestamp a \<in> {timestamp (liq c) - window_hours * 3600 .. timestamp (liq c)} \<and>
                action_type a = ''deposit'')
          then (if (\<exists>a\<in>set actions_df. account a = liquidatee (liq c) \<and>
                      timestamp a \<in> {timestamp (liq c) - window_hours * 3600 .. timestamp (liq c)} \<and>
                      action_type a = ''repay'')
                then ''Deposit + Repay'' else ''Deposit Only'')
          else (if (\<exists>a\<in>set actions_df. account a = liquidatee (liq c) \<and>
                      timestamp a \<in> {timestamp (liq c) - window_hours * 3600 .. timestamp (liq c)} \<and>
                      action_type a = ''repay'')
                then ''Repay Only'' else ''Passive'')))"
proof -
  from assms obtain out where
    e: "classify_users liq_df actions_df asset_key min_wbtc window_hours = Inr out"
    using classify_users_returns by blast
  have d: "distinct [''Passive'', ''Deposit Only'', ''Repay Only'', ''Deposit + Repay'']"
    by simp
  show ?thesis
    by (rule exI [of _ out], intro conjI ballI, rule e, rule classify_users_rows [OF e],
        rule d, rule classify_users_behavior [OF e])
qed

theorem classification_exhaustive_exclusive_witness:
  "\<exists>out. classify_users
       [sample_liq ''L1'' ''0xL'' ''0xAA'' 1000 2 80000,
        sample_liq ''L2'' ''0xL'' ''0xBB'' 1000 3 90000]
       [sample_action ''A1'' ''deposit'' ''0xAA'' 980 5000,
        sample_action ''A2'' ''repay'' ''0xAA'' 950 1000] ''wbtc'' 1 48 = Inr out \<and>
     map (row_id \<circ> liq) out = [''L1'', ''L2''] \<and>
     map behavior out = [''Deposit + Repay'', ''Passive'']"
proof -
  let ?liqs = "[sample_liq ''L1'' ''0xL'' ''0xAA'' 1000 2 80000,
        sample_liq ''L2'' ''0xL'' ''0xBB'' 1000 3 90000]"
  let ?acts = "[sample_action ''A1'' ''deposit'' ''0xAA'' 980 5000,
        sample_action ''A2'' ''repay'' ''0xAA'' 950 1000]"
  let ?out = "map (classify_row ?acts WBTC_ADDRESS 172800) ?liqs"
  have e: "classify_users ?liqs ?acts ''wbtc'' 1 48 = Inr ?out"
    by (simp add: classify_users_def get_asset_config_def ASSETS_def sample_liq_def)
  from classification_exhaustive_exclusive [of "''wbtc''" ?liqs ?acts 1 48]
  have "\<forall>c\<in>set ?out.
       behavior c =
         (if (\<exists>a\<in>set ?acts. account a = liquidatee (liq c) \<and>
                timestamp a \<in> {timestamp (liq c) - 48 * 3600 .. timestamp (liq c)} \<and>
                action_type a = ''deposit'')
          then (if (\<exists>a\<in>set ?acts. account a = liquidatee (liq c) \<and>
                      timestamp a \<in> {timestamp (liq c) - 48 * 3600 .. timestamp (liq c)} \<and>
                      action_type a = ''repay'')
                then ''Deposit + Repay'' else ''Deposit Only'')
          else (if (\<exists>a\<in>set ?acts. account a = liquidatee (liq c) \<and>
                      timestamp a \<in> {timestamp (liq c) - 48 * 3600 .. timestamp (liq c)} \<and>
                      action_type a = ''repay'')
                then ''Repay Only'' else ''Passive''))"
    by (simp only: e sum.inject simp_thms ex_simps) simp
  then have r: "map (row_id \<circ> liq) ?out = [''L1'', ''L2''] \<and>
        map behavior ?out = [''Deposit + Repay'', ''Passive'']"
    by (simp add: classify_row_liq sample_liq_def sample_action_def)
  show ?thesis
    by (rule exI [of _ ?out], rule conjI, rule e, rule r)
qed

text \<open>
  C6. With an empty action table and an asset key of the registry, the classifier
  returns a table (it raises nothing): one row per liquidation with
  \<open>collateral_amount_btc \<ge> min_wbtc\<close>, each classified \<open>Passive\<close> with both counts 0,
  both USD sums 0 and no \<open>hours_before_last_action\<close>.
\<close>

theorem classify_users_empty_actions:
  assumes "asset_key = ''wbtc'' \<or> asset_key = ''cbbtc''"
  shows "\<exists>out. classify_users liq_df [] asset_key min_wbtc window_hours = Inr out \<and>
           map liq out = filter (\<lambda>l. min_wbtc \<le> collateral_amount_btc l) liq_df \<and>
           (\<forall>c\<in>set out. behavior c = ''Passive'' \<and> deposit_count c = 0 \<and> repay_count c = 0 \<and>
              deposit_usd c = 0 \<and> repay_usd c = 0 \<and> hours_before_last_action c = None)"
proof -
  from assms obtain config where "get_asset_config asset_key = Inr config"
    using get_asset_config_known by blast
  then have "classify_users liq_df [] asset_key min_wbtc window_hours =
      Inr (map passive_row (filter (\<lambda>l. min_wbtc \<le> collateral_amount_btc l) liq_df))"
    by (simp add: classify_users_def)
  then show ?thesis
    by (auto simp: passive_row_def o_def)
qed

theorem classify_users_empty_actions_witness:
  "\<exists>out. classify_users [sample_liq ''L1'' ''0xL'' ''0xAA'' 1000 2 80000,
                          sample_liq ''L2'' ''0xL'' ''0xAB'' 1000 (1 / 2) 20000]
            [] ''wbtc'' 1 48 = Inr out \<and>
      map liq out = [sample_liq ''L1'' ''0xL'' ''0xAA'' 1000 2 80000] \<and>
      map behavior out = [''Passive''] \<and> map deposit_count out = [0] \<and>
      map hours_before_last_action out = [None]"
  using classify_users_empty_actions [of "''wbtc''"
    "[sample_liq ''L1'' ''0xL'' ''0xAA'' 1000 2 80000,
      sample_liq ''L2'' ''0xL'' ''0xAB'' 1000 (1 / 2) 20000]" 1 48]
  by (simp add: classify_users_def get_asset_config_def ASSETS_def passive_row_def sample_liq_def)

section \<open>Behavior by size\<close>

lemma cut_behavior_bins:
  "pd_cut v behavior_bins behavior_labels =
     (if v \<le> 1 then None
      else if v \<le> 5 then Some ''1-5 BTC''
      else if v \<le> 10 then Some ''5-10 BTC''
      else if v \<le> 50 then Some ''10-50 BTC''
      else Some ''>50 BTC'')"
  by (simp add: behavior_bins_def behavior_labels_def)

lemma behavior_size_bracket_None:
  "collateral_amount_btc (liq c) \<le> 1 \<Longrightarrow> behavior_size_bracket c = None"
  by (simp add: behavior_size_bracket_def cut_behavior_bins)

lemma behavior_size_bracket_Some:
  "behavior_size_bracket c = Some l \<Longrightarrow> 1 < collateral_amount_btc (liq c)"
  by (simp add: behavior_size_bracket_def cut_behavior_bins split: if_splits)

lemma filter_pairs_concat:
  "filter (\<lambda>(l, b, n). 0 < n) (concat (map (\<lambda>l. map (\<lambda>b. (l, b, f l b)) bs) ls)) =
   concat (map (\<lambda>l. map (\<lambda>b. (l, b, f l b)) (filter (\<lambda>b. 0 < f l b) bs)) ls)"
  by (induction ls) (simp_all add: filter_map o_def)

lemma sorted_distinct_filter_eq:
  fixes bs bs' :: "'a::linorder list"
  assumes "sorted bs" "distinct bs" "sorted bs'" "distinct bs'"
    and "\<And>b. P b \<Longrightarrow> b \<in> set bs \<longleftrightarrow> b \<in> set bs'"
  shows "filter P bs = filter P bs'"
proof (rule sorted_distinct_set_unique)
  show "set (filter P bs) = set (filter P bs')"
    using assms(5) by auto
qed (use assms in \<open>simp_all add: sorted_wrt_filter\<close>)

lemma group_count_restrict:
  "filter (\<lambda>c. behavior_size_bracket c = Some l \<and> behavior c = b)
      (filter (\<lambda>c. 1 < collateral_amount_btc (liq c)) cdf) =
   filter (\<lambda>c. behavior_size_bracket c = Some l \<and> behavior c = b) cdf"
  by (auto simp: filter_filter intro!: filter_cong dest: behavior_size_bracket_Some)

text \<open>The breakdown without the case distinction on the empty table: an empty table
  has no behaviors, hence no rows.\<close>

lemma get_behavior_by_size_alt:
  "get_behavior_by_size cdf =
     concat (map (\<lambda>l. map (\<lambda>b. (l, b,
         length (filter (\<lambda>c. behavior_size_bracket c = Some l \<and> behavior c = b) cdf)))
       (filter (\<lambda>b. 0 < length (filter (\<lambda>c. behavior_size_bracket c = Some l \<and>
                                              behavior c = b) cdf))
          (sort (remdups (map behavior cdf))))) behavior_labels)"
proof (cases "cdf = []")
  case True
  then show ?thesis
    by (simp add: get_behavior_by_size_def behavior_labels_def)
next
  case False
  then show ?thesis
    unfolding get_behavior_by_size_def
    by (simp only: if_False filter_pairs_concat)
qed

lemma get_behavior_by_size_restrict:
  "get_behavior_by_size cdf =
   get_behavior_by_size (filter (\<lambda>c. 1 < collateral_amount_btc (liq c)) cdf)"
proof -
  let ?big = "filter (\<lambda>c. 1 < collateral_amount_btc (liq c)) cdf"
  let ?n = "\<lambda>xs l b.
    length (filter (\<lambda>c. behavior_size_bracket c = Some l \<and> behavior c = b) xs)"
  have n: "?n ?big l b = ?n cdf l b" for l b
    by (simp only: group_count_restrict)
  have bs: "filter (\<lambda>b. 0 < ?n cdf l b) (sort (remdups (map behavior cdf))) =
            filter (\<lambda>b. 0 < ?n cdf l b) (sort (remdups (map behavior ?big)))" for l
  proof (rule sorted_distinct_filter_eq)
    fix b assume "0 < ?n cdf l b"
    then obtain c where "c \<in> set cdf" "behavior_size_bracket c = Some l" "behavior c = b"
      by (auto simp: filter_empty_conv)
    moreover from this have "c \<in> set ?big"
      by (auto dest: behavior_size_bracket_Some)
    ultimately show "b \<in> set (sort (remdups (map behavior cdf))) \<longleftrightarrow>
                     b \<in> set (sort (remdups (map behavior ?big)))"
      by force
  qed simp_all
  show ?thesis
    by (simp only: get_behavior_by_size_alt [of cdf] get_behavior_by_size_alt [of ?big] n bs)
qed

text \<open>
  C10. The size brackets of the behavior breakdown are open at the lower edge, the
  first starting at 1: a classified row with \<open>collateral_amount_btc \<le> 1\<close> gets no
  bracket, and the breakdown of a table is the breakdown of its rows above 1, so such
  rows are in none of its counts. A liquidation of exactly 1 passes the minimum-size
  threshold 1 and is a row of the classifier's output, where it has no bracket.
\<close>

theorem behavior_by_size_excludes_up_to_one:
  "(collateral_amount_btc (liq c) \<le> 1 \<longrightarrow> behavior_size_bracket c = None) \<and>
   get_behavior_by_size cdf =
     get_behavior_by_size (filter (\<lambda>c. 1 < collateral_amount_btc (liq c)) cdf) \<and>
   (classify_users liq_df actions_df asset_key 1 window_hours = Inr out \<and>
    l \<in> set liq_df \<and> collateral_amount_btc l = 1 \<longrightarrow>
      (\<exists>c\<in>set out. liq c = l \<and> behavior_size_bracket c = None))"
proof (intro conjI impI)
  assume "collateral_amount_btc (liq c) \<le> 1"
  then show "behavior_size_bracket c = None"
    by (rule behavior_size_bracket_None)
next
  show "get_behavior_by_size cdf =
     get_behavior_by_size (filter (\<lambda>c. 1 < collateral_amount_btc (liq c)) cdf)"
    by (rule get_behavior_by_size_restrict)
next
  assume a: "classify_users liq_df actions_df asset_key 1 window_hours = Inr out \<and>
    l \<in> set liq_df \<and> collateral_amount_btc l = 1"
  then have "l \<in> set (map liq out)"
    by (simp add: classify_users_rows [of liq_df actions_df asset_key 1 window_hours out])
  then obtain c where c: "c \<in> set out" "liq c = l"
    by auto
  with a have "behavior_size_bracket c = None"
    by (simp add: behavior_size_bracket_None)
  with c show "\<exists>c\<in>set out. liq c = l \<and> behavior_size_bracket c = None"
    by blast
qed

theorem behavior_by_size_excludes_up_to_one_witness:
  "\<exists>out. classify_users
       [sample_liq ''L1'' ''0xL'' ''0xAA'' 1000 1 40000,
        sample_liq ''L2'' ''0xL'' ''0xBB'' 1000 5 200000]
       [sample_action ''A1'' ''deposit'' ''0xAA'' 980 5000] ''wbtc'' 1 48 = Inr out \<and>
     map (collateral_amount_btc \<circ> liq) out = [1, 5] \<and>
     map behavior out = [''Deposit Only'', ''Passive''] \<and>
     map behavior_size_bracket out = [None, Some ''1-5 BTC''] \<and>
     get_behavior_by_size out = [(''1-5 BTC'', ''Passive'', 1)]"
proof -
  let ?l1 = "sample_liq ''L1'' ''0xL'' ''0xAA'' 1000 1 40000"
  let ?l2 = "sample_liq ''L2'' ''0xL'' ''0xBB'' 1000 5 200000"
  let ?acts = "[sample_action ''A1'' ''deposit'' ''0xAA'' 980 5000]"
  let ?c1 = "classify_row ?acts WBTC_ADDRESS 172800 ?l1"
  let ?c2 = "classify_row ?acts WBTC_ADDRESS 172800 ?l2"
  have e: "classify_users [?l1, ?l2] ?acts ''wbtc'' 1 48 = Inr [?c1, ?c2]"
    by (simp add: classify_users_def get_asset_config_def ASSETS_def sample_liq_def)
  have b1: "behavior ?c1 = ''Deposit Only''" and b2: "behavior ?c2 = ''Passive''"
    by (simp_all add: classify_row_behavior sample_liq_def sample_action_def)
  have s2: "behavior_size_bracket ?c2 = Some ''1-5 BTC''"
    by (simp add: behavior_size_bracket_def cut_behavior_bins classify_row_liq sample_liq_def)
  have v: "collateral_amount_btc (liq ?c1) = 1" "collateral_amount_btc (liq ?c2) = 5"
    by (simp_all add: classify_row_liq sample_liq_def)
  note t = behavior_by_size_excludes_up_to_one
    [of ?c1 "[?c1, ?c2]" "[?l1, ?l2]" ?acts "''wbtc''" 48 "[?c1, ?c2]" ?l1]
  have "collateral_amount_btc (liq ?c1) \<le> 1"
    by (simp only: v)
  with t [THEN conjunct1] have s1: "behavior_size_bracket ?c1 = None"
    by (rule mp)
  note g = t [THEN conjunct2, THEN conjunct1]
  have "get_behavior_by_size [?c1, ?c2] = [(''1-5 BTC'', ''Passive'', 1)]"
    by (simp only: g) (simp add: v get_behavior_by_size_def b2 s2 behavior_labels_def)
  then have r: "map (collateral_amount_btc \<circ> liq) [?c1, ?c2] = [1, 5] \<and>
     map behavior [?c1, ?c2] = [''Deposit Only'', ''Passive''] \<and>
     map behavior_size_bracket [?c1, ?c2] = [None, Some ''1-5 BTC''] \<and>
     get_behavior_by_size [?c1, ?c2] = [(''1-5 BTC'', ''Passive'', 1)]"
    by (simp add: v b1 b2 s1 s2)
  show ?thesis
    by (rule exI [of _ "[?c1, ?c2]"], rule conjI, rule e, rule r)
qed

section \<open>Dataset merge\<close>

lemma ddl_subset: "set (drop_duplicates_last col xs) \<subseteq> set xs"
  by (induction xs) auto

lemma ddl_keys: "col ` set (drop_duplicates_last col xs) = col ` set xs"
  by (induction xs) auto

lemma ddl_distinct: "distinct (map col (drop_duplicates_last col xs))"
proof (induction xs)
  case Nil
  then show ?case by simp
next
  case (Cons x xs)
  have "col x \<notin> col ` set xs \<Longrightarrow> col x \<notin> col ` set (drop_duplicates_last col xs)"
    by (simp add: ddl_keys)
  with Cons show ?case by auto
qed

lemma ddl_id: "distinct (map col xs) \<Longrightarrow> drop_duplicates_last col xs = xs"
  by (induction xs) auto

text \<open>A row survives the deduplication iff it occurs in the table with no row of
  the same key after it.\<close>

lemma ddl_last_occurrence:
  "r \<in> set (drop_duplicates_last col xs) \<longleftrightarrow>
     (\<exists>ys zs. xs = ys @ r # zs \<and> col r \<notin> col ` set zs)"
proof (induction xs)
  case Nil
  then show ?case by simp
next
  case (Cons x xs)
  show ?case
  proof
    assume "r \<in> set (drop_duplicates_last col (x # xs))"
    then consider "r = x" "col x \<notin> col ` set xs" | "r \<in> set (drop_duplicates_last col xs)"
      by (auto split: if_splits)
    then show "\<exists>ys zs. x # xs = ys @ r # zs \<and> col r \<notin> col ` set zs"
    proof cases
      case 1
      then have "x # xs = [] @ r # xs \<and> col r \<notin> col ` set xs"
        by simp
      then show ?thesis by blast
    next
      case 2
      with Cons obtain ys zs where "xs = ys @ r # zs" "col r \<notin> col ` set zs"
        by blast
      then have "x # xs = (x # ys) @ r # zs \<and> col r \<notin> col ` set zs"
        by simp
      then show ?thesis by blast
    qed
  next
    assume "\<exists>ys zs. x # xs = ys @ r # zs \<and> col r \<notin> col ` set zs"
    then obtain ys zs where d: "x # xs = ys @ r # zs" "col r \<notin> col ` set zs"
      by blast
    show "r \<in> set (drop_duplicates_last col (x # xs))"
    proof (cases ys)
      case Nil
      with d show ?thesis by auto
    next
      case (Cons y ys')
      with d have "xs = ys' @ r # zs"
        by simp
      with d(2) Cons.IH have "r \<in> set (drop_duplicates_last col xs)"
        by blast
      then show ?thesis by auto
    qed
  qed
qed

lemma ddl_append:
  "drop_duplicates_last col (xs @ ys) =
     filter (\<lambda>x. col x \<notin> col ` set ys) (drop_duplicates_last col xs) @
     drop_duplicates_last col ys"
  by (induction xs) (auto simp: ddl_keys image_Un)

lemma sorted_sort_values_desc:
  "sorted_wrt (\<lambda>a b. col b \<le> col a) (sort_values_desc col df)"
proof -
  have "sorted (map col (sort_key col df))"
    by (rule sorted_sort_key)
  then have "sorted_wrt (\<lambda>a b. col a \<le> col b) (sort_key col df)"
    by (simp only: sorted_map)
  then show ?thesis
    by (simp only: sort_values_desc_def sorted_wrt_rev)
qed

lemma set_sort_values_desc: "set (sort_values_desc col df) = set df"
  by (simp add: sort_values_desc_def)

lemma length_sort_values_desc: "length (sort_values_desc col df) = length df"
  by (simp add: sort_values_desc_def)

lemma distinct_map_insort_key:
  "distinct (map g (insort_key f x xs)) \<longleftrightarrow> g x \<notin> g ` set xs \<and> distinct (map g xs)"
  by (induction xs) (auto simp: set_insort_key)

lemma distinct_map_sort_key:
  "distinct (map g (sort_key f xs)) \<longleftrightarrow> distinct (map g xs)"
  by (induction xs) (auto simp: distinct_map_insort_key)

lemma distinct_map_sort_values_desc:
  "distinct (map g (sort_values_desc col df)) \<longleftrightarrow> distinct (map g df)"
proof -
  have "distinct (map g (rev (sort_key col df))) = distinct (rev (map g (sort_key col df)))"
    by (simp only: rev_map)
  then show ?thesis
    by (simp only: sort_values_desc_def distinct_rev distinct_map_sort_key)
qed

lemma update_data_nonempty:
  "existing \<noteq> [] \<Longrightarrow> new_df \<noteq> [] \<Longrightarrow>
     update_data existing new_df =
       sort_values_desc timestamp (drop_duplicates_last row_id (existing @ new_df))"
  by (simp add: update_data_def)

text \<open>
  C4, as the code has it. When both the existing and the incoming table have rows, the
  merged table holds exactly the rows of the concatenation that no later row with the
  same id follows, so it has no duplicate id and an incoming row replaces every
  existing row with its id; and it is ordered by timestamp descending. When the
  existing table is empty the incoming table is the result as it is, and when the
  incoming table is empty the existing one is. Merging one existing row with one
  incoming row of the same id yields the incoming row alone.
\<close>

theorem update_data_merge:
  "(existing \<noteq> [] \<and> new_df \<noteq> [] \<longrightarrow>
      distinct (map row_id (update_data existing new_df)) \<and>
      sorted_wrt (\<lambda>a b. timestamp b \<le> timestamp a) (update_data existing new_df) \<and>
      (\<forall>r. r \<in> set (update_data existing new_df) \<longleftrightarrow>
           (\<exists>ys zs. existing @ new_df = ys @ r # zs \<and> row_id r \<notin> row_id ` set zs)) \<and>
      (\<forall>r\<in>set (update_data existing new_df).
           row_id r \<in> row_id ` set new_df \<longrightarrow> r \<in> set new_df)) \<and>
   (existing = [] \<longrightarrow> update_data existing new_df = new_df) \<and>
   (new_df = [] \<longrightarrow> update_data existing new_df = existing) \<and>
   (row_id a = row_id b \<longrightarrow> update_data [a] [b] = [b])"
proof (intro conjI impI)
  assume ne: "existing \<noteq> [] \<and> new_df \<noteq> []"
  then have u: "update_data existing new_df =
       sort_values_desc timestamp (drop_duplicates_last row_id (existing @ new_df))"
    by (simp add: update_data_nonempty)
  show "distinct (map row_id (update_data existing new_df))"
    by (simp only: u distinct_map_sort_values_desc ddl_distinct)
  show "sorted_wrt (\<lambda>a b. timestamp b \<le> timestamp a) (update_data existing new_df)"
    by (simp only: u sorted_sort_values_desc)
  show "\<forall>r. r \<in> set (update_data existing new_df) \<longleftrightarrow>
           (\<exists>ys zs. existing @ new_df = ys @ r # zs \<and> row_id r \<notin> row_id ` set zs)"
    by (simp only: u set_sort_values_desc ddl_last_occurrence) simp
  show "\<forall>r\<in>set (update_data existing new_df).
           row_id r \<in> row_id ` set new_df \<longrightarrow> r \<in> set new_df"
    using ddl_subset [of row_id new_df]
    by (simp only: u set_sort_values_desc ddl_append) auto
next
  show "existing = [] \<Longrightarrow> update_data existing new_df = new_df"
    by (simp add: update_data_def)
  show "new_df = [] \<Longrightarrow> update_data existing new_df = existing"
    by (simp add: update_data_def)
  show "row_id a = row_id b \<Longrightarrow> update_data [a] [b] = [b]"
    by (simp add: update_data_def sort_values_desc_def)
qed

theorem update_data_merge_witness:
  "map row_id (update_data
      [sample_liq ''X'' ''0xA'' ''0xU'' 10 1 100, sample_liq ''Y'' ''0xA'' ''0xU'' 20 3 300]
      [sample_liq ''X'' ''0xA'' ''0xU'' 10 2 100]) = [''Y'', ''X''] \<and>
   map collateral_amount_btc (update_data
      [sample_liq ''X'' ''0xA'' ''0xU'' 10 1 100, sample_liq ''Y'' ''0xA'' ''0xU'' 20 3 300]
      [sample_liq ''X'' ''0xA'' ''0xU'' 10 2 100]) = [3, 2] \<and>
   update_data [sample_liq ''X'' ''0xA'' ''0xU'' 10 1 100]
               [sample_liq ''X'' ''0xA'' ''0xU'' 10 2 100] =
     [sample_liq ''X'' ''0xA'' ''0xU'' 10 2 100]"
  using update_data_merge [of
      "[sample_liq ''X'' ''0xA'' ''0xU'' 10 1 100, sample_liq ''Y'' ''0xA'' ''0xU'' 20 3 300]"
      "[sample_liq ''X'' ''0xA'' ''0xU'' 10 2 100]"
      "sample_liq ''X'' ''0xA'' ''0xU'' 10 1 100" "sample_liq ''X'' ''0xA'' ''0xU'' 10 2 100"]
  by (simp add: update_data_def sort_values_desc_def sample_liq_def)

text \<open>
  C4 as stated fails when one of the tables is empty: with nothing on disk, an
  incoming table with the same id twice is returned with both rows, not deduplicated;
  with nothing fetched, an existing table in ascending order is returned in that order.
\<close>

theorem update_data_empty_side_counterexample:
  "update_data [] [sample_liq ''X'' ''0xA'' ''0xU'' 10 1 100,
                   sample_liq ''X'' ''0xA'' ''0xU'' 10 2 100] =
     [sample_liq ''X'' ''0xA'' ''0xU'' 10 1 100, sample_liq ''X'' ''0xA'' ''0xU'' 10 2 100] \<and>
   \<not> distinct (map row_id (update_data []
       [sample_liq ''X'' ''0xA'' ''0xU'' 10 1 100, sample_liq ''X'' ''0xA'' ''0xU'' 10 2 100])) \<and>
   update_data [] [sample_liq ''X'' ''0xA'' ''0xU'' 10 1 100,
                   sample_liq ''X'' ''0xA'' ''0xU'' 10 2 100] \<noteq>
     sort_values_desc timestamp (drop_duplicates_last row_id
       ([] @ [sample_liq ''X'' ''0xA'' ''0xU'' 10 1 100,
              sample_liq ''X'' ''0xA'' ''0xU'' 10 2 100])) \<and>
   update_data [sample_liq ''A'' ''0xA'' ''0xU'' 10 1 100,
                sample_liq ''B'' ''0xA'' ''0xU'' 20 2 100] [] =
     [sample_liq ''A'' ''0xA'' ''0xU'' 10 1 100, sample_liq ''B'' ''0xA'' ''0xU'' 20 2 100] \<and>
   \<not> sorted_wrt (\<lambda>a b. timestamp b \<le> timestamp a)
       (update_data [sample_liq ''A'' ''0xA'' ''0xU'' 10 1 100,
                     sample_liq ''B'' ''0xA'' ''0xU'' 20 2 100] [])"
  by (simp add: update_data_def sort_values_desc_def sample_liq_def)

text \<open>
  C5. Merging a table whose ids are unique with itself gives the same set of rows:
  no row is added, none is lost, and no id occurs twice.
\<close>

theorem update_data_idempotent:
  assumes "distinct (map row_id D)"
  shows "set (update_data D D) = set D \<and> distinct (map row_id (update_data D D)) \<and>
         length (update_data D D) = length D"
proof (cases "D = []")
  case True
  then show ?thesis
    by (simp add: update_data_def)
next
  case False
  have "\<forall>x\<in>set D. row_id x \<in> row_id ` set D"
    by simp
  then have "filter (\<lambda>x. row_id x \<notin> row_id ` set D) D = []"
    by (simp only: filter_empty_conv) simp
  with assms have "drop_duplicates_last row_id (D @ D) = D"
    by (simp add: ddl_append ddl_id)
  with False have "update_data D D = sort_values_desc timestamp D"
    by (simp add: update_data_def)
  with assms show ?thesis
    by (simp add: set_sort_values_desc distinct_map_sort_values_desc length_sort_values_desc)
qed

theorem update_data_idempotent_witness:
  "set (update_data
      [sample_liq ''X'' ''0xA'' ''0xU'' 10 1 100, sample_liq ''Y'' ''0xA'' ''0xU'' 20 2 200]
      [sample_liq ''X'' ''0xA'' ''0xU'' 10 1 100, sample_liq ''Y'' ''0xA'' ''0xU'' 20 2 200]) =
   set [sample_liq ''X'' ''0xA'' ''0xU'' 10 1 100, sample_liq ''Y'' ''0xA'' ''0xU'' 20 2 200] \<and>
   length (update_data
      [sample_liq ''X'' ''0xA'' ''0xU'' 10 1 100, sample_liq ''Y'' ''0xA'' ''0xU'' 20 2 200]
      [sample_liq ''X'' ''0xA'' ''0xU'' 10 1 100, sample_liq ''Y'' ''0xA'' ''0xU'' 20 2 200]) = 2"
proof -
  have d: "distinct (map row_id
      [sample_liq ''X'' ''0xA'' ''0xU'' 10 1 100, sample_liq ''Y'' ''0xA'' ''0xU'' 20 2 200])"
    by (simp add: sample_liq_def)
  from update_data_idempotent [OF d] show ?thesis
    by simp
qed

section \<open>Top-N ranking\<close>












section \<open>Paginated fetch\<close>

lemma range_attempts: "[1..<MAX_RETRIES + 1] = [1, 2, 3]"
  by (simp add: MAX_RETRIES_def upt_rec)

lemma attempt_page_data:
  "upstream (length reqs) skip = Data page \<Longrightarrow>
     attempt_page upstream skip reqs [1..<MAX_RETRIES + 1] = (Some page, reqs @ [skip])"
  by (simp only: range_attempts) simp

text \<open>One turn of the loop when the first attempt delivers a page.\<close>

lemma fetch_pages_data:
  assumes "upstream (length reqs) skip = Data page"
  shows "fetch_pages upstream tag skip reqs all_rows =
     (if page = [] then Some (all_rows, reqs @ [skip])
      else if length page < BATCH_SIZE then Some (all_rows @ map tag page, reqs @ [skip])
      else fetch_pages upstream tag (skip + BATCH_SIZE) (reqs @ [skip])
             (all_rows @ map tag page))"
  by (subst fetch_pages.simps)
    (simp only: attempt_page_data [of upstream reqs skip page, OF assms] prod.case option.case)

lemma fetch_pages_run:
  assumes "\<forall>i\<le>k. upstream (length reqs + i) (skip + i * BATCH_SIZE) = Data (pages i)"
    and "\<forall>i<k. BATCH_SIZE \<le> length (pages i)"
    and "length (pages k) < BATCH_SIZE"
  shows "fetch_pages upstream tag skip reqs all_rows =
           Some (all_rows @ concat (map (\<lambda>i. map tag (pages i)) [0..<Suc k]),
                 reqs @ map (\<lambda>i. skip + i * BATCH_SIZE) [0..<Suc k])"
  using assms
proof (induction k arbitrary: skip reqs all_rows pages)
  case 0
  then have "upstream (length reqs) skip = Data (pages 0)"
    by simp
  note a = fetch_pages_data [of upstream reqs skip "pages 0", OF this]
  from 0 have "length (pages 0) < BATCH_SIZE"
    by simp
  then show ?case
    by (simp add: a)
next
  case (Suc k)
  from Suc.prems(1) have "upstream (length reqs) skip = Data (pages 0)"
    by (metis add.right_neutral add_0 le0 mult_zero_left)
  note a = fetch_pages_data [of upstream reqs skip "pages 0", OF this]
  from Suc.prems(2) have full: "BATCH_SIZE \<le> length (pages 0)"
    by simp
  then have ne: "pages 0 \<noteq> []"
    by (auto simp: BATCH_SIZE_def)
  have step: "fetch_pages upstream tag skip reqs all_rows =
      fetch_pages upstream tag (skip + BATCH_SIZE) (reqs @ [skip])
        (all_rows @ map tag (pages 0))"
    using full ne by (simp add: a)
  have p1: "\<forall>i\<le>k. upstream (length (reqs @ [skip]) + i) (skip + BATCH_SIZE + i * BATCH_SIZE)
              = Data (pages (Suc i))"
  proof (intro allI impI)
    fix i assume "i \<le> k"
    then have "Suc i \<le> Suc k"
      by simp
    with Suc.prems(1)
    have "upstream (length reqs + Suc i) (skip + Suc i * BATCH_SIZE) = Data (pages (Suc i))"
      by blast
    then show "upstream (length (reqs @ [skip]) + i) (skip + BATCH_SIZE + i * BATCH_SIZE)
              = Data (pages (Suc i))"
      by (simp add: add.assoc)
  qed
  have p2: "\<forall>i<k. BATCH_SIZE \<le> length (pages (Suc i))"
    using Suc.prems(2) by simp
  have p3: "length (pages (Suc k)) < BATCH_SIZE"
    using Suc.prems(3) .
  have ih: "fetch_pages upstream tag (skip + BATCH_SIZE) (reqs @ [skip])
        (all_rows @ map tag (pages 0)) =
      Some ((all_rows @ map tag (pages 0)) @
              concat (map (\<lambda>i. map tag (pages (Suc i))) [0..<Suc k]),
            (reqs @ [skip]) @ map (\<lambda>i. skip + BATCH_SIZE + i * BATCH_SIZE) [0..<Suc k])"
    by (rule Suc.IH [OF p1 p2 p3])
  have u: "[0..<Suc (Suc k)] = 0 # map Suc [0..<Suc k]"
    by (simp only: map_Suc_upt upt_conv_Cons [of 0 "Suc (Suc k)"])
  show ?case
    by (simp add: step ih u o_def add.assoc del: upt_Suc)
qed

text \<open>
  C9. Let the upstream answer the request number \<open>i\<close>, sent with offset
  \<open>i * BATCH_SIZE\<close>, with the page \<open>pages i\<close>, for all \<open>i\<close> up to \<open>k\<close>, where the pages
  before \<open>k\<close> are full and page \<open>k\<close> is shorter than \<open>BATCH_SIZE\<close> (perhaps empty). Then
  both fetch functions return; the requests they sent are exactly those at the offsets
  \<open>0\<close>, \<open>BATCH_SIZE\<close>, ..., \<open>k * BATCH_SIZE\<close>; and the result is the concatenation of the
  pages \<open>0\<close> to \<open>k\<close>, which for the liquidation fetch carry the version stamp.
\<close>

theorem pagination_until_short_page:
  assumes "\<forall>i\<le>k. upstream i (i * BATCH_SIZE) = Data (pages i)"
    and "\<forall>i<k. BATCH_SIZE \<le> length (pages i)"
    and "length (pages k) < BATCH_SIZE"
  shows "fetch_user_events upstream =
           Some (concat (map pages [0..<Suc k]), map (\<lambda>i. i * BATCH_SIZE) [0..<Suc k]) \<and>
         fetch_liquidations_from_endpoint upstream v =
           Some (concat (map (\<lambda>i. map (\<lambda>liq. liq(''version'' \<mapsto> JString v)) (pages i))
                           [0..<Suc k]),
                 map (\<lambda>i. i * BATCH_SIZE) [0..<Suc k])"
proof -
  from assms(1)
  have a: "\<forall>i\<le>k. upstream (length ([]::nat list) + i) (0 + i * BATCH_SIZE) = Data (pages i)"
    by simp
  show ?thesis
    unfolding fetch_user_events_def fetch_liquidations_from_endpoint_def
    by (simp only: fetch_pages_run [OF a assms(2) assms(3)]) simp
qed

theorem pagination_until_short_page_witness:
  "fetch_user_events
       (\<lambda>c skip. if skip = 0 then Data (replicate 1000 Map.empty) else Data [Map.empty]) =
     Some (replicate 1000 Map.empty @ [Map.empty], [0, 1000]) \<and>
   fetch_liquidations_from_endpoint
       (\<lambda>c skip. if skip = 0 then Data (replicate 1000 Map.empty) else Data [Map.empty])
       ''V3'' =
     Some (replicate 1000 [''version'' \<mapsto> JString ''V3''] @
             [[''version'' \<mapsto> JString ''V3'']], [0, 1000])"
proof -
  let ?up = "\<lambda>(c::nat) (skip::nat).
    if skip = 0 then Data (replicate 1000 Map.empty) else Data [Map.empty]"
  let ?pages = "\<lambda>i::nat. if i = 0 then replicate 1000 (Map.empty :: raw) else [Map.empty]"
  have h1: "\<forall>i\<le>1. ?up i (i * BATCH_SIZE) = Data (?pages i)"
    by (simp add: BATCH_SIZE_def)
  have h2: "\<forall>i<1. BATCH_SIZE \<le> length (?pages i)"
    by (simp add: BATCH_SIZE_def)
  have h3: "length (?pages 1) < BATCH_SIZE"
    by (simp add: BATCH_SIZE_def)
  have u: "[0..<Suc 1] = [0, 1]"
    by (simp add: upt_rec)
  from pagination_until_short_page [where k = 1 and upstream = ?up and pages = ?pages
      and v = "''V3''", OF h1 h2 h3] show ?thesis
    by (simp only: u) (simp add: BATCH_SIZE_def)
qed

end
